theory Spec2Isabelle
  imports Main "HOL-Library.Word"
begin

section \<open>Errors, status codes and the busy sentinel\<close>

text \<open>
  The Go \<open>error\<close> values that \<open>api/agent/runner_client.go\<close> creates or inspects.
  A Go \<open>error\<close> that may be \<open>nil\<close> is a \<open>go_error option\<close>, with \<open>None\<close> for \<open>nil\<close>.
  \<^item> \<open>APIError c m\<close>: \<open>models.NewAPIError(c, errors.New(m))\<close>;
  \<^item> \<open>FuncError c m\<close>: \<open>models.NewFuncError\<close> of such an error (still an API error with
    the same code, marked as caused by the user's function);
  \<^item> \<open>StatusError c m\<close>: an error that carries a gRPC status with code \<open>c\<close>
    (\<open>codes.Code\<close> is a \<open>uint32\<close>);
  \<^item> \<open>EOF\<close>, \<open>ErrShortWrite\<close>: \<open>io.EOF\<close>, \<open>io.ErrShortWrite\<close>;
  \<^item> \<open>ErrorRunnerClosed\<close>, \<open>ErrorPureRunnerNoEOF\<close>: the two package variables;
  \<^item> \<open>OtherError m\<close>: any other error (context, JSON, I/O).
\<close>

datatype go_error =
    APIError int string
  | FuncError int string
  | StatusError "32 word" string
  | EOF
  | ErrShortWrite
  | ErrorRunnerClosed
  | ErrorPureRunnerNoEOF
  | OtherError string

text \<open>The gRPC codes the client names (\<open>google.golang.org/grpc/codes\<close>).\<close>

definition codes_OK :: "32 word" where
  "codes_OK = 0"

definition codes_Unknown :: "32 word" where
  "codes_Unknown = 2"

definition codes_Unavailable :: "32 word" where
  "codes_Unavailable = 14"

text \<open>
  \<open>status.Code(err)\<close> of grpc v1.17.0 (the version of \<open>go.mod\<close>): \<open>OK\<close> for \<open>nil\<close>, the
  code of the status the error carries, and \<open>Unknown\<close> for every other error.
\<close>

fun status_Code :: "go_error option \<Rightarrow> 32 word" where
  "status_Code None = codes_OK"
| "status_Code (Some (StatusError c m)) = c"
| "status_Code (Some e) = codes_Unknown"

text \<open>
  The code of \<open>status.Convert(err)\<close>: \<open>Convert\<close> builds a status from the error by the same
  three cases.
\<close>

fun status_Convert_Code :: "go_error option \<Rightarrow> 32 word" where
  "status_Convert_Code None = codes_OK"
| "status_Convert_Code (Some (StatusError c m)) = c"
| "status_Convert_Code (Some e) = codes_Unknown"

definition StatusServiceUnavailable :: int where
  "StatusServiceUnavailable = 503"

text \<open>
  Modelled from the spec: \<open>models.ErrCallTimeoutServerBusy\<close> is declared in \<open>api/models\<close>, which
  is not among the sources. It is the reserved "server busy" error; its code is the 503
  that the comment on \<open>isTooBusy\<close> and \<open>logCallFinish\<close> name.
\<close>

definition ErrCallTimeoutServerBusy :: go_error where
  "ErrCallTimeoutServerBusy = APIError StatusServiceUnavailable ''Timed out - server too busy''"

text \<open>
  Modelled from the spec: \<open>models.GetAPIErrorCode\<close> is declared in \<open>api/models\<close>, which is not
  among the sources. It resolves the code of a structured application error, and is 0 for
  \<open>nil\<close> and for an error that is not an API error.
\<close>

fun GetAPIErrorCode :: "go_error option \<Rightarrow> int" where
  "GetAPIErrorCode (Some (APIError c m)) = c"
| "GetAPIErrorCode (Some (FuncError c m)) = c"
| "GetAPIErrorCode e = 0"

text \<open>\<open>isTooBusy\<close>, lines 100 to 113. \<open>int(st.Code())\<close> reads the \<open>uint32\<close> code as an \<open>int\<close>.\<close>

definition isTooBusy :: "go_error option \<Rightarrow> bool" where
  "isTooBusy err =
    (if GetAPIErrorCode err = GetAPIErrorCode (Some ErrCallTimeoutServerBusy) then True
     else if err \<noteq> None \<and>
        uint (status_Convert_Code err) = GetAPIErrorCode (Some ErrCallTimeoutServerBusy)
       then True
     else False)"

section \<open>The engagement orchestrator\<close>

text \<open>
  \<open>TryExec\<close>, lines 165 to 233. Everything the function asks of its collaborators is an
  input: whether the session guard admits the session, the errors of \<open>json.Marshal\<close>,
  \<open>Engage\<close> and the \<open>Send\<close> of the placement message, and the case of the final \<open>select\<close>
  that fires (the caller's context with its error, or the terminal-signal channel with the
  value it delivers, \<open>None\<close> being \<open>nil\<close>). The result is the pair the function returns,
  with the calls it made on its collaborators, in order.
\<close>

datatype select_case = CtxDone go_error | RecvDone "go_error option"

datatype action =
    AddSession | Marshal | Engage | SendTry
  | GoReceiveFromRunner | GoSendToRunner | DoneSession

record exec_env =
  session_ok :: bool
  marshal_err :: "go_error option"
  engage_err :: "go_error option"
  send_err :: "go_error option"
  selected :: select_case

record exec_result =
  committed :: bool
  failure :: "go_error option"
  actions :: "action list"

definition TryExec :: "exec_env \<Rightarrow> exec_result" where
  "TryExec env =
    (if \<not> session_ok env then
       \<lparr>committed = False, failure = Some ErrorRunnerClosed, actions = [AddSession]\<rparr>
     else
       (case marshal_err env of
          Some e \<Rightarrow>
            \<lparr>committed = True, failure = Some e, actions = [AddSession, Marshal, DoneSession]\<rparr>
        | None \<Rightarrow>
       (case engage_err env of
          Some e \<Rightarrow>
            \<lparr>committed = False, failure = Some e,
             actions = [AddSession, Marshal, Engage, DoneSession]\<rparr>
        | None \<Rightarrow>
       (case send_err env of
          Some e \<Rightarrow>
            (let isRetriable = (status_Code (Some e) = codes_Unavailable) in
             \<lparr>committed = \<not> isRetriable, failure = Some e,
              actions = [AddSession, Marshal, Engage, SendTry, DoneSession]\<rparr>)
        | None \<Rightarrow>
       (case selected env of
          CtxDone ctxErr \<Rightarrow>
            \<lparr>committed = True, failure = Some ctxErr,
             actions = [AddSession, Marshal, Engage, SendTry,
                        GoReceiveFromRunner, GoSendToRunner, DoneSession]\<rparr>
        | RecvDone recvErr \<Rightarrow>
            (if isTooBusy recvErr then
               \<lparr>committed = False, failure = Some ErrCallTimeoutServerBusy,
                actions = [AddSession, Marshal, Engage, SendTry,
                           GoReceiveFromRunner, GoSendToRunner, DoneSession]\<rparr>
             else
               \<lparr>committed = True, failure = recvErr,
                actions = [AddSession, Marshal, Engage, SendTry,
                           GoReceiveFromRunner, GoSendToRunner, DoneSession]\<rparr>))))))"

text \<open>A connection that is shutting down: the session guard refuses the session.\<close>

definition closing_env :: exec_env where
  "closing_env =
    \<lparr>session_ok = False, marshal_err = None, engage_err = None, send_err = None,
     selected = RecvDone None\<rparr>"

text \<open>An exchange whose placement message was sent, and whose \<open>select\<close> fires as given.\<close>

definition placed_env :: "select_case \<Rightarrow> exec_env" where
  "placed_env sel =
    \<lparr>session_ok = True, marshal_err = None, engage_err = None, send_err = None,
     selected = sel\<rparr>"

text \<open>An exchange whose placement message could not be sent.\<close>

definition send_failed_env :: "go_error \<Rightarrow> exec_env" where
  "send_failed_env e =
    \<lparr>session_ok = True, marshal_err = None, engage_err = None, send_err = Some e,
     selected = RecvDone None\<rparr>"

section \<open>Latency statistics of a finished call\<close>

text \<open>
  A \<open>time.Time\<close> is read as an instant: the nanoseconds since Go's zero time (January 1,
  year 1, 00:00:00 UTC), negative before it. A \<open>time.Duration\<close> is an \<open>int64\<close> count of
  nanoseconds. \<open>Sub\<close> is \<open>Time.Sub\<close> on instants without a monotonic clock reading, as
  parsed ones are: the difference, or the least or greatest duration when the difference
  does not fit.
\<close>

type_synonym instant = int

definition zero_time :: instant where
  "zero_time = 0"

definition IsZero :: "instant \<Rightarrow> bool" where
  "IsZero t = (t = zero_time)"

definition Before :: "instant \<Rightarrow> instant \<Rightarrow> bool" where
  "Before t u = (t < u)"

definition minDuration :: int where
  "minDuration = - (2 ^ 63)"

definition maxDuration :: int where
  "maxDuration = 2 ^ 63 - 1"

definition Sub :: "instant \<Rightarrow> instant \<Rightarrow> int" where
  "Sub t u =
    (let d = t - u in
     if minDuration \<le> d \<and> d \<le> maxDuration then d
     else if Before t u then minDuration
     else maxDuration)"

text \<open>
  The fields of \<open>pb.CallFinished\<close> that the client reads to decide something (the
  diagnostic fields only feed the trace span). \<open>error_code\<close> is an \<open>int32\<close>, the two
  durations are \<open>int64\<close> nanoseconds; they are compared with 0 and passed on, never added.
\<close>

record call_finished =
  success :: bool
  error_code :: int
  error_str :: string
  error_user :: bool
  scheduler_duration :: int
  execution_duration :: int
  created_at :: string
  started_at :: string
  completed_at :: string

text \<open>
  What \<open>recordFinishStats\<close> does to the outside: the two latency measures it records
  (\<open>statsLBAgentRunnerSchedLatency\<close>, \<open>statsLBAgentRunnerExecLatency\<close>) and the duration it
  adds to the call's execution-time accumulator, in the order of the calls.
\<close>

datatype stat_event =
    SchedLatency int
  | ExecLatency int
  | AddUserExecutionTime int

text \<open>
  \<open>common.ParseDateTime\<close> is declared in \<open>api/common\<close>, which is not among the sources: it is
  a parameter, a function from the text to an error (\<open>Inl\<close>) or an instant (\<open>Inr\<close>).
\<close>

type_synonym date_parser = "string \<Rightarrow> go_error + instant"

text \<open>\<open>translateDate\<close>, lines 313 to 321.\<close>

definition translateDate :: "date_parser \<Rightarrow> string \<Rightarrow> instant" where
  "translateDate ParseDateTime dt =
    (if dt \<noteq> [] then
       (case ParseDateTime dt of
          Inr trx \<Rightarrow> trx
        | Inl e \<Rightarrow> zero_time)
     else zero_time)"

text \<open>\<open>recordFinishStats\<close>, lines 323 to 357.\<close>

definition recordFinishStats :: "date_parser \<Rightarrow> call_finished \<Rightarrow> stat_event list" where
  "recordFinishStats ParseDateTime msg =
    (let runnerSchedLatency = scheduler_duration msg;
         runnerExecLatency = execution_duration msg
     in
     if runnerSchedLatency \<noteq> 0 \<or> runnerExecLatency \<noteq> 0 then
       (if runnerSchedLatency \<noteq> 0 then [SchedLatency runnerSchedLatency] else []) @
       (if runnerExecLatency \<noteq> 0
        then [ExecLatency runnerExecLatency, AddUserExecutionTime runnerExecLatency]
        else [])
     else
       (let creatTs = translateDate ParseDateTime (created_at msg);
            startTs = translateDate ParseDateTime (started_at msg);
            complTs = translateDate ParseDateTime (completed_at msg)
        in
        if \<not> IsZero creatTs \<and> \<not> IsZero startTs \<and> \<not> IsZero complTs \<and>
           \<not> Before startTs creatTs \<and> \<not> Before complTs startTs
        then
          (let runnerSchedLatency = Sub startTs creatTs;
               runnerExecLatency = Sub complTs startTs
           in [SchedLatency runnerSchedLatency, ExecLatency runnerExecLatency,
               AddUserExecutionTime runnerExecLatency])
        else []))"

text \<open>
  What \<open>translateDate\<close> asks of a timestamp before it has an instant for it: the text is not
  empty, the parser returns no error, and the instant is not the zero time. The last is
  more than parsing without error: \<open>translateDate\<close> returns the zero time for a timestamp it
  could not read, and \<open>recordFinishStats\<close> takes every zero time for that.
\<close>

definition parsed_nonzero :: "date_parser \<Rightarrow> string \<Rightarrow> instant \<Rightarrow> bool" where
  "parsed_nonzero ParseDateTime dt t =
    (dt \<noteq> [] \<and> ParseDateTime dt = Inr t \<and> t \<noteq> zero_time)"

text \<open>
  A parser for the examples: it reads three texts, each as that many seconds after the
  zero time, and refuses every other text.
\<close>

definition seconds_parser :: date_parser where
  "seconds_parser dt =
    (if dt = ''1'' then Inr 1000000000
     else if dt = ''2'' then Inr 2000000000
     else if dt = ''5'' then Inr 5000000000
     else Inl (OtherError ''parsing time''))"

definition finished_ok :: call_finished where
  "finished_ok =
    \<lparr>success = True, error_code = 0, error_str = [], error_user = False,
     scheduler_duration = 0, execution_duration = 0,
     created_at = ''1'', started_at = ''2'', completed_at = ''5''\<rparr>"

text \<open>
  A parser that reads four RFC 3339 timestamps, each as its instant: the first is the
  zero time itself, the others are 620547, 737424 and 737790 days after it. Two finished
  messages with such timestamps, in order, and no durations: one is created at the zero
  time, the other is started more than 292 years (the greatest duration) after it was
  created.
\<close>

definition rfc3339_sample :: date_parser where
  "rfc3339_sample dt =
    (if dt = ''0001-01-01T00:00:00Z'' then Inr 0
     else if dt = ''1700-01-01T00:00:00Z'' then Inr 53615260800000000000
     else if dt = ''2020-01-01T00:00:00Z'' then Inr 63713433600000000000
     else if dt = ''2021-01-01T00:00:00Z'' then Inr 63745056000000000000
     else Inl (OtherError ''parsing time''))"

definition finished_year_one :: call_finished where
  "finished_year_one =
    \<lparr>success = True, error_code = 0, error_str = [], error_user = False,
     scheduler_duration = 0, execution_duration = 0,
     created_at = ''0001-01-01T00:00:00Z'', started_at = ''2020-01-01T00:00:00Z'',
     completed_at = ''2021-01-01T00:00:00Z''\<rparr>"

definition finished_far :: call_finished where
  "finished_far =
    \<lparr>success = True, error_code = 0, error_str = [], error_user = False,
     scheduler_duration = 0, execution_duration = 0,
     created_at = ''1700-01-01T00:00:00Z'', started_at = ''2020-01-01T00:00:00Z'',
     completed_at = ''2021-01-01T00:00:00Z''\<rparr>"

section \<open>The inbound response receiver\<close>

text \<open>
  The messages of the runner (\<open>pb.RunnerMsg\<close>): a result start with its metadata (HTTP
  metadata has an \<open>int32\<close> status code and a list of headers), a data frame (bytes and the
  end-of-stream flag), the finished message, and any other body.
\<close>

type_synonym byte = "8 word"

datatype result_meta =
    Http int "(string \<times> string) list"
  | OtherMeta

datatype runner_msg =
    ResultStart result_meta
  | Data "byte list" bool
  | Finished call_finished
  | UnknownMsg

text \<open>
  The calls on the response sink (\<open>http.ResponseWriter\<close>), in order: \<open>w.Header().Set(k, v)\<close>,
  \<open>w.WriteHeader(code)\<close>, and \<open>w.Write(data)\<close> with the count and the error it returned.
\<close>

datatype sink_call =
    HeaderSet string string
  | WriteHeader int
  | Write "byte list" int "go_error option"

text \<open>
  The sink decides what a \<open>Write\<close> returns: a writer is a function from the sink's state and
  the bytes to the count, the error and the next state.
\<close>

type_synonym 'w writer = "'w \<Rightarrow> byte list \<Rightarrow> (int \<times> go_error option) \<times> 'w"

text \<open>The places of \<open>receiveFromRunner\<close> that call \<open>tryQueueError\<close>.\<close>

datatype post_site =
    RecvFailed
  | ShortWrite
  | CallFailed
  | DrainFailed
  | MissingEOF

datatype log_level = Info | Warn

text \<open>
  The state of one run of \<open>receiveFromRunner\<close>: the sink and the calls made on it, the
  channel \<open>done\<close> (its buffer, of capacity one, and whether it was closed), every call of
  \<open>tryQueueError\<close> with its place, the local variables \<open>statusCode\<close> and \<open>isPartialWrite\<close>,
  the statistics recorded, the severity \<open>logCallFinish\<close> logged at, and the number of calls of
  \<open>Recv\<close>. Trace spans, debug logs and the cloned headers (they only feed the log record)
  are left out.
\<close>

record 'w recv_state =
  sink :: 'w
  calls :: "sink_call list"
  recvDone :: "go_error option list"
  closed :: bool
  posts :: "(post_site \<times> go_error option) list"
  statusCode :: int
  isPartialWrite :: bool
  stats :: "stat_event list"
  finish_log :: "log_level list"
  recvs :: nat

text \<open>\<open>parseError\<close>, lines 290 to 304.\<close>

definition parseError :: "call_finished \<Rightarrow> go_error option" where
  "parseError msg =
    (if success msg then None
     else
       (let eCode = error_code msg;
            eStr = (if error_str msg = [] then ''Unknown Error From Pure Runner''
                    else error_str msg)
        in if error_user msg then Some (FuncError eCode eStr)
           else Some (APIError eCode eStr)))"

text \<open>
  \<open>tryQueueError\<close>, lines 306 to 311: a send that does not block. The value enters the
  buffer when it has room and is dropped otherwise. The orchestrator receives at most once,
  so what it reads is the first value posted, whether or not it has already taken it when a
  later one is posted.
\<close>

definition tryQueueError :: "post_site \<Rightarrow> go_error option \<Rightarrow> 'w recv_state \<Rightarrow> 'w recv_state" where
  "tryQueueError site e st =
    st\<lparr>posts := posts st @ [(site, e)],
       recvDone := (if length (recvDone st) < 1 then recvDone st @ [e] else recvDone st)\<rparr>"

text \<open>\<open>logCallFinish\<close>, lines 489 to 506: the severity of the completion record.\<close>

definition logCallFinish :: "call_finished \<Rightarrow> log_level" where
  "logCallFinish msg =
    (if \<not> success msg \<and> \<not> error_user msg \<and> error_code msg \<noteq> StatusServiceUnavailable
     then Warn else Info)"

text \<open>A call of \<open>protocolClient.Recv()\<close>.\<close>

definition count_recv :: "'w recv_state \<Rightarrow> 'w recv_state" where
  "count_recv st = st\<lparr>recvs := recvs st + 1\<rparr>"

text \<open>
  The three cases of the \<open>switch\<close> on the message body, lines 391 to 466, one function
  each. The result start, lines 395 to 413:
\<close>

definition onResultStart :: "result_meta \<Rightarrow> 'w recv_state \<Rightarrow> 'w recv_state" where
  "onResultStart meta st =
    (case meta of
       Http code headers \<Rightarrow>
         (let st1 = st\<lparr>calls := calls st @ map (\<lambda>(k, v). HeaderSet k v) headers\<rparr>
          in if code > 0
             then st1\<lparr>statusCode := code, calls := calls st1 @ [WriteHeader code]\<rparr>
             else st1)
     | OtherMeta \<Rightarrow> st)"

text \<open>The data frame, lines 416 to 433:\<close>

definition onData :: "'w writer \<Rightarrow> byte list \<Rightarrow> 'w recv_state \<Rightarrow> 'w recv_state" where
  "onData wr d st =
    (if \<not> isPartialWrite st then
       (case wr (sink st) d of
          ((n, werr), w') \<Rightarrow>
            (let st1 = st\<lparr>sink := w', calls := calls st @ [Write d n werr]\<rparr>
             in if n \<noteq> int (length d) then
                  tryQueueError ShortWrite
                    (if werr = None then Some ErrShortWrite else werr)
                    (st1\<lparr>isPartialWrite := True\<rparr>)
                else st1))
     else st)"

text \<open>The finished message, lines 436 to 460, up to the \<open>break\<close>:\<close>

definition onFinished :: "date_parser \<Rightarrow> call_finished \<Rightarrow> 'w recv_state \<Rightarrow> 'w recv_state" where
  "onFinished ParseDateTime m st =
    (let st1 = st\<lparr>finish_log := finish_log st @ [logCallFinish m],
                  stats := stats st @ recordFinishStats ParseDateTime m\<rparr>
     in if \<not> success m then tryQueueError CallFailed (parseError m) st1 else st1)"

text \<open>
  The stream of one exchange delivers finitely many messages and then fails every further
  \<open>Recv\<close> with one error, \<open>io.EOF\<close> after a regular close: the loops below take the messages
  still to come and that error.

  The loop after the finished message, lines 470 to 486: it ends at the first error, and
  posts it unless it is \<open>io.EOF\<close>; every message before that is ignored and posts
  \<open>ErrorPureRunnerNoEOF\<close>.
\<close>

fun EOFLoop :: "runner_msg list \<Rightarrow> go_error \<Rightarrow> 'w recv_state \<Rightarrow> 'w recv_state" where
  "EOFLoop [] fin st =
    (if fin = EOF then count_recv st
     else tryQueueError DrainFailed (Some fin) (count_recv st))"
| "EOFLoop (msg # rest) fin st =
    EOFLoop rest fin (tryQueueError MissingEOF (Some ErrorPureRunnerNoEOF) (count_recv st))"

text \<open>
  The loop \<open>DataLoop\<close>, lines 382 to 467: a receive error is posted and the function
  returns; the finished message breaks out of the loop, into the loop above.
\<close>

fun DataLoop ::
  "date_parser \<Rightarrow> 'w writer \<Rightarrow> runner_msg list \<Rightarrow> go_error \<Rightarrow> 'w recv_state \<Rightarrow> 'w recv_state"
where
  "DataLoop P wr [] fin st = tryQueueError RecvFailed (Some fin) (count_recv st)"
| "DataLoop P wr (ResultStart meta # rest) fin st =
    DataLoop P wr rest fin (onResultStart meta (count_recv st))"
| "DataLoop P wr (Data d e # rest) fin st =
    DataLoop P wr rest fin (onData wr d (count_recv st))"
| "DataLoop P wr (Finished m # rest) fin st =
    EOFLoop rest fin (onFinished P m (count_recv st))"
| "DataLoop P wr (UnknownMsg # rest) fin st =
    DataLoop P wr rest fin (count_recv st)"

definition init_recv :: "'w \<Rightarrow> 'w recv_state" where
  "init_recv w =
    \<lparr>sink = w, calls = [], recvDone = [], closed = False, posts = [], statusCode = 0,
     isPartialWrite = False, stats = [], finish_log = [], recvs = 0\<rparr>"

text \<open>\<open>receiveFromRunner\<close>, lines 369 to 487; \<open>defer close(done)\<close> runs on every return.\<close>

definition receiveFromRunner ::
  "date_parser \<Rightarrow> 'w writer \<Rightarrow> 'w \<Rightarrow> runner_msg list \<Rightarrow> go_error \<Rightarrow> 'w recv_state"
where
  "receiveFromRunner P wr w msgs fin = (DataLoop P wr msgs fin (init_recv w))\<lparr>closed := True\<rparr>"

text \<open>
  What \<open>recvErr := <-recvDone\<close> reads once the receiver has posted or returned: the buffered
  value, or \<open>nil\<close> from the closed, empty channel.
\<close>

definition receive_recvDone :: "'w recv_state \<Rightarrow> go_error option" where
  "receive_recvDone st = (case recvDone st of v # vs \<Rightarrow> v | [] \<Rightarrow> None)"

text \<open>
  Sinks for the examples. The first takes every byte. The second takes at most two bytes of
  a write and reports no error; its state is unused.
\<close>

definition full_writer :: "unit writer" where
  "full_writer w d = ((int (length d), None), w)"

definition short_writer :: "unit writer" where
  "short_writer w d = ((min 2 (int (length d)), None), w)"

text \<open>
  Readings of a run, for the statements below: the status codes the sink's status-code
  setter was called with; the positive status codes of the result-start messages that
  arrive before the finished message; whether a call is a body write, and whether it is one
  that took another number of bytes than it was given; the error the receiver posts for
  such a write; and the posts made for short writes.
\<close>

fun status_writes :: "sink_call list \<Rightarrow> int list" where
  "status_writes [] = []"
| "status_writes (WriteHeader c # cs) = c # status_writes cs"
| "status_writes (x # cs) = status_writes cs"

fun start_codes :: "runner_msg list \<Rightarrow> int list" where
  "start_codes [] = []"
| "start_codes (Finished m # rest) = []"
| "start_codes (ResultStart (Http c hs) # rest) =
    (if c > 0 then c # start_codes rest else start_codes rest)"
| "start_codes (x # rest) = start_codes rest"

fun is_Write :: "sink_call \<Rightarrow> bool" where
  "is_Write (Write d n e) = True"
| "is_Write x = False"

fun is_short :: "sink_call \<Rightarrow> bool" where
  "is_short (Write d n e) = (n \<noteq> int (length d))"
| "is_short x = False"

fun short_write_error :: "sink_call \<Rightarrow> go_error option" where
  "short_write_error (Write d n e) = (if e = None then Some ErrShortWrite else e)"
| "short_write_error x = None"

definition short_write_posts :: "'w recv_state \<Rightarrow> (post_site \<times> go_error option) list" where
  "short_write_posts st = filter (\<lambda>p. fst p = ShortWrite) (posts st)"

text \<open>
  The latch, as an invariant of \<open>DataLoop\<close>: while \<open>isPartialWrite\<close> is unset no write was
  short and nothing was posted; once it is set, the last body write is the one short write,
  its error is the one post for a short write, and it is what the channel holds.
\<close>

definition latch_inv :: "'w recv_state \<Rightarrow> bool" where
  "latch_inv st =
    (if isPartialWrite st then
       (\<exists>ws c. filter is_Write (calls st) = ws @ [c] \<and> is_short c \<and>
          (\<forall>x\<in>set ws. \<not> is_short x) \<and>
          short_write_posts st = [(ShortWrite, short_write_error c)] \<and>
          recvDone st = [short_write_error c])
     else (\<forall>x\<in>set (calls st). \<not> is_short x) \<and> posts st = [] \<and> recvDone st = [])"

text \<open>What is left of the invariant once the loop has ended, with other posts made.\<close>

definition latch_final :: "'w recv_state \<Rightarrow> bool" where
  "latch_final st =
    ((\<exists>ws c. filter is_Write (calls st) = ws @ [c] \<and> is_short c \<and>
        (\<forall>x\<in>set ws. \<not> is_short x) \<and>
        short_write_posts st = [(ShortWrite, short_write_error c)] \<and>
        recvDone st = [short_write_error c]) \<or>
     ((\<forall>x\<in>set (calls st). \<not> is_short x) \<and> short_write_posts st = []))"

section \<open>The outbound body streamer\<close>

definition MaxDataChunk :: nat where
  "MaxDataChunk = 10 * 1024"

text \<open>\<open>pb.DataFrame\<close>: the bytes and the end-of-stream flag.\<close>

record data_frame =
  frame_data :: "byte list"
  frame_eof :: bool

text \<open>
  A read of the body returns the bytes it put at the start of the buffer (their number is
  the \<open>n\<close> of \<open>Read\<close>) and an error or \<open>nil\<close>. A reader is a function from its state and the
  length of the buffer to the result and the next state.
\<close>

type_synonym read_result = "byte list \<times> go_error option"

type_synonym 'r reader = "'r \<Rightarrow> nat \<Rightarrow> read_result \<times> 'r"

text \<open>
  The transport decides what a \<open>Send\<close> returns: the sender gives, for the number of data
  frames sent before, the error of the next \<open>Send\<close> or \<open>nil\<close>.
\<close>

type_synonym sender = "nat \<Rightarrow> go_error option"

datatype send_log =
    ReadFailed go_error
  | SendFailed go_error nat bool

text \<open>
  The state of one run of \<open>sendToRunner\<close>: the body reader, the results of the reads made,
  the frames handed to \<open>Send\<close>, and the errors logged, each in order.
\<close>

record 'r send_state =
  bodyReader :: 'r
  reads :: "read_result list"
  sent :: "data_frame list"
  send_logs :: "send_log list"

text \<open>
  One pass through the body of the loop of \<open>sendToRunner\<close>, lines 251 to 287: the read, the
  log of a read error other than \<open>io.EOF\<close>, the frame and its \<open>Send\<close>. The result says
  whether the function returns after this pass (\<open>True\<close>) or the loop goes on.
\<close>

definition sendIteration :: "'r reader \<Rightarrow> sender \<Rightarrow> 'r send_state \<Rightarrow> bool \<times> 'r send_state" where
  "sendIteration rd sd st =
    (case rd (bodyReader st) MaxDataChunk of
       ((data, rerr), r') \<Rightarrow>
         (let n = length data;
              st1 = st\<lparr>bodyReader := r', reads := reads st @ [(data, rerr)],
                       send_logs := send_logs st @
                         (case rerr of
                            None \<Rightarrow> []
                          | Some e \<Rightarrow> if e \<noteq> EOF then [ReadFailed e] else [])\<rparr>;
              isEOF = (rerr \<noteq> None \<or> n = 0);
              sendErr = sd (length (sent st1));
              st2 = st1\<lparr>sent := sent st1 @ [\<lparr>frame_data = data, frame_eof = isEOF\<rparr>]\<rparr>
          in case sendErr of
               Some e \<Rightarrow>
                 (True, if e \<noteq> EOF
                        then st2\<lparr>send_logs := send_logs st2 @ [SendFailed e n isEOF]\<rparr>
                        else st2)
             | None \<Rightarrow> if isEOF then (True, st2) else (False, st2)))"

text \<open>
  \<open>sendToRunner\<close>, lines 235 to 288. The loop runs for as long as the reader gives bytes
  without an error and the sends succeed, so the function takes the number of passes it
  may make and is \<open>None\<close> when they do not suffice.
\<close>

fun sendLoop :: "nat \<Rightarrow> 'r reader \<Rightarrow> sender \<Rightarrow> 'r send_state \<Rightarrow> 'r send_state option" where
  "sendLoop 0 rd sd st = None"
| "sendLoop (Suc fuel) rd sd st =
    (case sendIteration rd sd st of
       (True, st') \<Rightarrow> Some st'
     | (False, st') \<Rightarrow> sendLoop fuel rd sd st')"

definition init_send :: "'r \<Rightarrow> 'r send_state" where
  "init_send r = \<lparr>bodyReader = r, reads = [], sent = [], send_logs = []\<rparr>"

definition sendToRunner :: "nat \<Rightarrow> 'r reader \<Rightarrow> sender \<Rightarrow> 'r \<Rightarrow> 'r send_state option" where
  "sendToRunner fuel rd sd r = sendLoop fuel rd sd (init_send r)"

text \<open>
  The reader of a body held in memory (\<open>bytes.Reader\<close>, which the comment in \<open>sendToRunner\<close>
  expects behind \<open>GetBody\<close>): its state is what is left of the body; a read at the end
  returns no byte and \<open>io.EOF\<close>, any other read fills the buffer as far as the body goes.
\<close>

definition bytesReader :: "byte list reader" where
  "bytesReader s n =
    (if s = [] then (([], Some EOF), s)
     else ((take n s, None), drop n s))"

text \<open>A transport on which every \<open>Send\<close> succeeds.\<close>

definition send_ok :: sender where
  "send_ok k = None"

text \<open>The frame that goes with a read: its bytes, and the flag for no byte or any error.\<close>

definition frame_of :: "read_result \<Rightarrow> data_frame" where
  "frame_of r = \<lparr>frame_data = fst r, frame_eof = (fst r = [] \<or> snd r \<noteq> None)\<rparr>"

text \<open>The body cut into pieces of at most \<open>c\<close> bytes, all full but the last.\<close>

fun chunks :: "nat \<Rightarrow> 'a list \<Rightarrow> 'a list list" where
  "chunks c xs = (if c = 0 \<or> xs = [] then [] else take c xs # chunks c (drop c xs))"

text \<open>
  A reader for the examples: its state is the list of the results it still has to return;
  at the end of the list it returns no byte and \<open>io.EOF\<close>.
\<close>

definition scripted_reader :: "read_result list reader" where
  "scripted_reader s n = (case s of [] \<Rightarrow> (([], Some EOF), []) | r # rs \<Rightarrow> (r, rs))"

text \<open>
  Runs for the examples: the state \<open>sendToRunner\<close> ends in on a body of one byte, and a body
  whose second read fails with an error after one byte.
\<close>

definition one_byte_run :: "byte list send_state" where
  "one_byte_run =
    \<lparr>bodyReader = [], reads = [([97], None), ([], Some EOF)],
     sent = [\<lparr>frame_data = [97], frame_eof = False\<rparr>, \<lparr>frame_data = [], frame_eof = True\<rparr>],
     send_logs = []\<rparr>"

definition reset_script :: "read_result list" where
  "reset_script = [([1, 2], None), ([3], Some (OtherError ''connection reset''))]"

declare chunks.simps [simp del]

section \<open>The error classifier\<close>

lemma busy_code: "GetAPIErrorCode (Some ErrCallTimeoutServerBusy) = 503"
  by (simp add: ErrCallTimeoutServerBusy_def StatusServiceUnavailable_def)

text \<open>
  Claim C7. \<open>isTooBusy\<close> is true exactly for an error whose resolved code is the reserved
  busy code 503: an API error (plain or marked as the function's) with code 503, or an
  error whose gRPC status has code 503. It is false for \<open>nil\<close>, for every API error and every
  status with another code, and for every error that has neither.
\<close>

theorem isTooBusy_iff:
  "GetAPIErrorCode (Some ErrCallTimeoutServerBusy) = 503 \<and>
   isTooBusy e =
    (case e of
       None \<Rightarrow> False
     | Some (APIError c m) \<Rightarrow> c = 503
     | Some (FuncError c m) \<Rightarrow> c = 503
     | Some (StatusError c m) \<Rightarrow> uint c = 503
     | Some _ \<Rightarrow> False)"
  by (simp add: isTooBusy_def busy_code codes_Unknown_def split: option.split go_error.split)

text \<open>The classifier on a busy status, a busy API error, their neighbours 502 and 504, and \<open>nil\<close>.\<close>

theorem isTooBusy_iff_witness:
  "isTooBusy (Some (StatusError 503 ''busy'')) \<and>
   isTooBusy (Some (APIError 503 ''busy'')) \<and>
   isTooBusy (Some (FuncError 503 ''busy'')) \<and>
   \<not> isTooBusy (Some (StatusError 502 ''bad gateway'')) \<and>
   \<not> isTooBusy (Some (APIError 504 ''timeout'')) \<and>
   \<not> isTooBusy (Some EOF) \<and>
   \<not> isTooBusy None"
  using isTooBusy_iff [of "Some (StatusError 503 ''busy'')"]
    isTooBusy_iff [of "Some (APIError 503 ''busy'')"]
    isTooBusy_iff [of "Some (FuncError 503 ''busy'')"]
    isTooBusy_iff [of "Some (StatusError 502 ''bad gateway'')"]
    isTooBusy_iff [of "Some (APIError 504 ''timeout'')"]
    isTooBusy_iff [of "Some EOF"]
    isTooBusy_iff [of None]
  by simp

section \<open>The placement decision\<close>

text \<open>
  Claim C1, as the code has it. When the session guard refuses the session, \<open>TryExec\<close>
  returns at once with the error \<open>ErrorRunnerClosed\<close> and \<open>committed = false\<close> (the comment
  says: try another runner if this one is closed); the guard is the only collaborator it
  has called, so nothing was marshalled or sent.
\<close>

theorem TryExec_closed:
  "\<not> session_ok env \<Longrightarrow>
   TryExec env = \<lparr>committed = False, failure = Some ErrorRunnerClosed, actions = [AddSession]\<rparr>"
  by (simp add: TryExec_def)

theorem TryExec_closed_witness:
  "\<not> session_ok closing_env \<and>
   TryExec closing_env =
     \<lparr>committed = False, failure = Some ErrorRunnerClosed, actions = [AddSession]\<rparr>"
  using TryExec_closed [of closing_env] by (simp add: closing_env_def)

text \<open>
  Claim C1 as the specification states it (\<open>committed = true\<close> with the closed error) fails
  on a connection that is shutting down.
\<close>

theorem TryExec_closed_counterexample:
  "\<not> session_ok closing_env \<and>
   \<not> (committed (TryExec closing_env) = True \<and>
      failure (TryExec closing_env) = Some ErrorRunnerClosed)"
  by (simp add: closing_env_def TryExec_def)

text \<open>
  Claim C2. Once the placement message was sent and the \<open>select\<close> takes a value \<open>v\<close> from the
  terminal-signal channel: if \<open>v\<close> classifies as busy, \<open>TryExec\<close> returns \<open>false\<close> with the
  busy sentinel \<open>ErrCallTimeoutServerBusy\<close>; otherwise it returns \<open>true\<close> with \<open>v\<close> itself. A
  \<open>nil\<close> value gives \<open>(true, nil)\<close>, and \<open>nil\<close> is what the channel gives when it was closed
  with nothing posted.
\<close>

theorem TryExec_recvDone:
  assumes "session_ok env" and "marshal_err env = None" and "engage_err env = None"
    and "send_err env = None" and "selected env = RecvDone v"
  shows "(isTooBusy v \<longrightarrow>
            committed (TryExec env) = False \<and>
            failure (TryExec env) = Some ErrCallTimeoutServerBusy) \<and>
         (\<not> isTooBusy v \<longrightarrow> committed (TryExec env) = True \<and> failure (TryExec env) = v) \<and>
         (v = None \<longrightarrow> committed (TryExec env) = True \<and> failure (TryExec env) = None) \<and>
         (\<forall>st :: 'w recv_state. recvDone st = [] \<and> v = receive_recvDone st \<longrightarrow>
            committed (TryExec env) = True \<and> failure (TryExec env) = None)"
  using assms by (simp add: TryExec_def isTooBusy_def busy_code receive_recvDone_def)

theorem TryExec_recvDone_witness:
  "committed (TryExec (placed_env (RecvDone None))) = True \<and>
   failure (TryExec (placed_env (RecvDone None))) = None \<and>
   committed (TryExec (placed_env (RecvDone (Some (StatusError 503 ''busy''))))) = False \<and>
   failure (TryExec (placed_env (RecvDone (Some (StatusError 503 ''busy''))))) =
     Some ErrCallTimeoutServerBusy \<and>
   committed (TryExec (placed_env (RecvDone (Some EOF)))) = True \<and>
   failure (TryExec (placed_env (RecvDone (Some EOF)))) = Some EOF"
proof -
  have a: "committed (TryExec (placed_env (RecvDone None))) = True \<and>
      failure (TryExec (placed_env (RecvDone None))) = None"
    using TryExec_recvDone [of "placed_env (RecvDone None)" None,
        THEN conjunct2, THEN conjunct2, THEN conjunct1]
    by (simp add: placed_env_def)
  have b: "committed (TryExec (placed_env (RecvDone (Some (StatusError 503 ''busy''))))) = False \<and>
      failure (TryExec (placed_env (RecvDone (Some (StatusError 503 ''busy''))))) =
        Some ErrCallTimeoutServerBusy"
    using TryExec_recvDone [of "placed_env (RecvDone (Some (StatusError 503 ''busy'')))"
        "Some (StatusError 503 ''busy'')", THEN conjunct1]
    by (simp add: placed_env_def isTooBusy_def busy_code)
  have c: "committed (TryExec (placed_env (RecvDone (Some EOF)))) = True \<and>
      failure (TryExec (placed_env (RecvDone (Some EOF)))) = Some EOF"
    using TryExec_recvDone [of "placed_env (RecvDone (Some EOF))" "Some EOF",
        THEN conjunct2, THEN conjunct1]
    by (simp add: placed_env_def isTooBusy_def busy_code codes_Unknown_def)
  from a b c show ?thesis by simp
qed

text \<open>
  Claim C3. When the \<open>Send\<close> of the placement message fails with an error, \<open>TryExec\<close>
  returns that error, and \<open>committed\<close> is \<open>false\<close> exactly when the status code of the error
  is \<open>Unavailable\<close>; for every other error it is \<open>true\<close>. Neither task was started.
\<close>

theorem TryExec_send_failed:
  assumes "session_ok env" and "marshal_err env = None" and "engage_err env = None"
    and "send_err env = Some e"
  shows "(committed (TryExec env) = False \<longleftrightarrow> status_Code (Some e) = codes_Unavailable) \<and>
         failure (TryExec env) = Some e \<and>
         actions (TryExec env) = [AddSession, Marshal, Engage, SendTry, DoneSession]"
  using assms by (simp add: TryExec_def)

theorem TryExec_send_failed_witness:
  "committed (TryExec (send_failed_env (StatusError 14 ''transport is closing''))) = False \<and>
   failure (TryExec (send_failed_env (StatusError 14 ''transport is closing''))) =
     Some (StatusError 14 ''transport is closing'') \<and>
   committed (TryExec (send_failed_env (StatusError 4 ''deadline exceeded''))) = True \<and>
   committed (TryExec (send_failed_env EOF)) = True \<and>
   failure (TryExec (send_failed_env EOF)) = Some EOF"
  using TryExec_send_failed [of "send_failed_env (StatusError 14 ''transport is closing'')"
      "StatusError 14 ''transport is closing''"]
    TryExec_send_failed [of "send_failed_env (StatusError 4 ''deadline exceeded'')"
      "StatusError 4 ''deadline exceeded''"]
    TryExec_send_failed [of "send_failed_env EOF" EOF]
  by (simp add: send_failed_env_def codes_Unavailable_def codes_Unknown_def)

section \<open>Latency of a finished call\<close>

lemma Sub_ordered: "u \<le> t \<Longrightarrow> Sub t u = min (t - u) maxDuration"
  by (simp add: Sub_def minDuration_def maxDuration_def Before_def min_def)

lemma translateDate_parsed: "parsed_nonzero P dt t \<Longrightarrow> translateDate P dt = t"
  by (simp add: parsed_nonzero_def translateDate_def)

lemma translateDate_nonzero:
  "translateDate P dt \<noteq> zero_time \<Longrightarrow> parsed_nonzero P dt (translateDate P dt)"
  by (auto simp: parsed_nonzero_def translateDate_def split: if_splits sum.splits)

text \<open>
  Claim C9, as the code has it. For a finished message whose two durations are zero: when
  each of the three timestamps is not empty, parses without error and to an instant other
  than the zero time, and the three are in order (created, started, completed), the
  scheduler latency started - created and the execution latency completed - started are
  recorded, each capped at the greatest duration as \<open>Time.Sub\<close> caps it, and the latter is
  added to the call's execution time; in every other case nothing is recorded.
\<close>

theorem recordFinishStats_fallback:
  assumes "scheduler_duration msg = 0" and "execution_duration msg = 0"
  shows "(\<forall>c s e. parsed_nonzero P (created_at msg) c \<and> parsed_nonzero P (started_at msg) s \<and>
            parsed_nonzero P (completed_at msg) e \<and> c \<le> s \<and> s \<le> e \<longrightarrow>
          recordFinishStats P msg =
            [SchedLatency (min (s - c) maxDuration), ExecLatency (min (e - s) maxDuration),
             AddUserExecutionTime (min (e - s) maxDuration)]) \<and>
         (\<not> (\<exists>c s e. parsed_nonzero P (created_at msg) c \<and>
            parsed_nonzero P (started_at msg) s \<and>
            parsed_nonzero P (completed_at msg) e \<and> c \<le> s \<and> s \<le> e) \<longrightarrow>
          recordFinishStats P msg = [])"
proof (intro conjI allI impI)
  fix c s e
  assume h: "parsed_nonzero P (created_at msg) c \<and> parsed_nonzero P (started_at msg) s \<and>
    parsed_nonzero P (completed_at msg) e \<and> c \<le> s \<and> s \<le> e"
  then have t: "translateDate P (created_at msg) = c" "translateDate P (started_at msg) = s"
    "translateDate P (completed_at msg) = e"
    by (simp_all add: translateDate_parsed)
  from h have nz: "c \<noteq> zero_time" "s \<noteq> zero_time" "e \<noteq> zero_time"
    by (simp_all add: parsed_nonzero_def)
  from h have le: "c \<le> s" "s \<le> e" by simp_all
  have "recordFinishStats P msg =
      [SchedLatency (Sub s c), ExecLatency (Sub e s), AddUserExecutionTime (Sub e s)]"
    using assms nz le by (simp add: recordFinishStats_def t IsZero_def Before_def Let_def)
  then show "recordFinishStats P msg =
      [SchedLatency (min (s - c) maxDuration), ExecLatency (min (e - s) maxDuration),
       AddUserExecutionTime (min (e - s) maxDuration)]"
    by (simp only: Sub_ordered [OF le(1)] Sub_ordered [OF le(2)])
next
  assume n: "\<not> (\<exists>c s e. parsed_nonzero P (created_at msg) c \<and>
    parsed_nonzero P (started_at msg) s \<and>
    parsed_nonzero P (completed_at msg) e \<and> c \<le> s \<and> s \<le> e)"
  let ?c = "translateDate P (created_at msg)"
  let ?s = "translateDate P (started_at msg)"
  let ?e = "translateDate P (completed_at msg)"
  have "\<not> (?c \<noteq> zero_time \<and> ?s \<noteq> zero_time \<and> ?e \<noteq> zero_time \<and> ?c \<le> ?s \<and> ?s \<le> ?e)"
    using n translateDate_nonzero by blast
  then show "recordFinishStats P msg = []"
    using assms by (auto simp: recordFinishStats_def IsZero_def Before_def Let_def)
qed

text \<open>
  Three timestamps one, two and five seconds after the zero time; the same with a started
  timestamp that does not parse; and the message started more than 292 years after it was
  created, whose scheduler latency is the greatest duration.
\<close>

theorem recordFinishStats_fallback_witness:
  "recordFinishStats seconds_parser finished_ok =
     [SchedLatency 1000000000, ExecLatency 3000000000, AddUserExecutionTime 3000000000] \<and>
   recordFinishStats seconds_parser (finished_ok\<lparr>started_at := ''yesterday''\<rparr>) = [] \<and>
   recordFinishStats rfc3339_sample finished_far =
     [SchedLatency 9223372036854775807, ExecLatency 31622400000000000,
      AddUserExecutionTime 31622400000000000]"
proof -
  have z: "scheduler_duration finished_ok = 0" "execution_duration finished_ok = 0"
    by (simp_all add: finished_ok_def)
  have p: "parsed_nonzero seconds_parser (created_at finished_ok) 1000000000"
    "parsed_nonzero seconds_parser (started_at finished_ok) 2000000000"
    "parsed_nonzero seconds_parser (completed_at finished_ok) 5000000000"
    by (simp_all add: parsed_nonzero_def seconds_parser_def zero_time_def finished_ok_def)
  have a: "recordFinishStats seconds_parser finished_ok =
     [SchedLatency 1000000000, ExecLatency 3000000000, AddUserExecutionTime 3000000000]"
    using recordFinishStats_fallback [OF z, of seconds_parser, THEN conjunct1, rule_format,
        of 1000000000 2000000000 5000000000] p
    by (simp add: maxDuration_def)
  let ?m = "finished_ok\<lparr>started_at := ''yesterday''\<rparr>"
  have z': "scheduler_duration ?m = 0" "execution_duration ?m = 0"
    by (simp_all add: finished_ok_def)
  have n: "\<not> (\<exists>c s e. parsed_nonzero seconds_parser (created_at ?m) c \<and>
      parsed_nonzero seconds_parser (started_at ?m) s \<and>
      parsed_nonzero seconds_parser (completed_at ?m) e \<and> c \<le> s \<and> s \<le> e)"
    by (simp add: parsed_nonzero_def seconds_parser_def)
  have b: "recordFinishStats seconds_parser ?m = []"
    using recordFinishStats_fallback [OF z', of seconds_parser, THEN conjunct2] n by blast
  have zf: "scheduler_duration finished_far = 0" "execution_duration finished_far = 0"
    by (simp_all add: finished_far_def)
  have pf: "parsed_nonzero rfc3339_sample (created_at finished_far) 53615260800000000000"
    "parsed_nonzero rfc3339_sample (started_at finished_far) 63713433600000000000"
    "parsed_nonzero rfc3339_sample (completed_at finished_far) 63745056000000000000"
    by (simp_all add: parsed_nonzero_def rfc3339_sample_def zero_time_def finished_far_def)
  have c: "recordFinishStats rfc3339_sample finished_far =
     [SchedLatency 9223372036854775807, ExecLatency 31622400000000000,
      AddUserExecutionTime 31622400000000000]"
    using recordFinishStats_fallback [OF zf, of rfc3339_sample, THEN conjunct1, rule_format,
        of 53615260800000000000 63713433600000000000 63745056000000000000] pf
    by (simp add: maxDuration_def)
  from a b c show ?thesis by simp
qed

text \<open>
  Claim C9 as the specification states it fails twice. The three timestamps of the first
  message parse without error and are in order, and nothing is recorded: it was created at
  the zero time. Those of the second parse without error and are in order, and the
  scheduler latency recorded is not started - created: the difference exceeds the greatest
  duration.
\<close>

theorem recordFinishStats_fallback_counterexample:
  "scheduler_duration finished_year_one = 0 \<and> execution_duration finished_year_one = 0 \<and>
   rfc3339_sample (created_at finished_year_one) = Inr 0 \<and>
   rfc3339_sample (started_at finished_year_one) = Inr 63713433600000000000 \<and>
   rfc3339_sample (completed_at finished_year_one) = Inr 63745056000000000000 \<and>
   recordFinishStats rfc3339_sample finished_year_one = [] \<and>
   scheduler_duration finished_far = 0 \<and> execution_duration finished_far = 0 \<and>
   rfc3339_sample (created_at finished_far) = Inr 53615260800000000000 \<and>
   rfc3339_sample (started_at finished_far) = Inr 63713433600000000000 \<and>
   rfc3339_sample (completed_at finished_far) = Inr 63745056000000000000 \<and>
   recordFinishStats rfc3339_sample finished_far =
     [SchedLatency 9223372036854775807, ExecLatency 31622400000000000,
      AddUserExecutionTime 31622400000000000] \<and>
   (9223372036854775807 :: int) \<noteq> 63713433600000000000 - 53615260800000000000"
  by (simp add: finished_year_one_def finished_far_def rfc3339_sample_def
      recordFinishStats_def translateDate_def IsZero_def Before_def Sub_def zero_time_def
      minDuration_def maxDuration_def Let_def)

text \<open>
  Claim C10. A finished message with a scheduler duration other than zero and an execution
  duration of zero records the scheduler latency and nothing else: no execution latency,
  nothing added to the execution time, and the timestamps are not looked at, whatever
  they are and however they parse.
\<close>

theorem recordFinishStats_sched_only:
  "scheduler_duration msg \<noteq> 0 \<Longrightarrow> execution_duration msg = 0 \<Longrightarrow>
   recordFinishStats P msg = [SchedLatency (scheduler_duration msg)]"
  by (simp add: recordFinishStats_def)

theorem recordFinishStats_sched_only_witness:
  "recordFinishStats seconds_parser (finished_ok\<lparr>scheduler_duration := 7\<rparr>) = [SchedLatency 7]"
  using recordFinishStats_sched_only [of "finished_ok\<lparr>scheduler_duration := 7\<rparr>" seconds_parser]
  by (simp add: finished_ok_def)

section \<open>The status code and the sink\<close>

lemma status_writes_append: "status_writes (xs @ ys) = status_writes xs @ status_writes ys"
  by (induction xs rule: status_writes.induct) simp_all

lemma status_writes_headers: "status_writes (map (\<lambda>(k, v). HeaderSet k v) hs) = []"
  by (induction hs) auto

lemma calls_tryQueueError: "calls (tryQueueError site e st) = calls st"
  by (simp add: tryQueueError_def)

lemma calls_count_recv: "calls (count_recv st) = calls st"
  by (simp add: count_recv_def)

lemma calls_onFinished: "calls (onFinished P m st) = calls st"
  by (simp add: onFinished_def Let_def calls_tryQueueError)

lemma calls_EOFLoop: "calls (EOFLoop msgs fin st) = calls st"
  by (induction msgs arbitrary: st) (simp_all add: calls_tryQueueError calls_count_recv)

lemma status_writes_onData: "status_writes (calls (onData wr d st)) = status_writes (calls st)"
  by (simp add: onData_def Let_def calls_tryQueueError status_writes_append split: prod.split)

lemma status_writes_onResultStart:
  "status_writes (calls (onResultStart meta st)) =
     status_writes (calls st) @
       (case meta of Http c hs \<Rightarrow> if c > 0 then [c] else [] | OtherMeta \<Rightarrow> [])"
  by (simp add: onResultStart_def Let_def status_writes_append status_writes_headers
      split: result_meta.split)

lemma status_writes_DataLoop:
  "status_writes (calls (DataLoop P wr msgs fin st)) = status_writes (calls st) @ start_codes msgs"
proof (induction P wr msgs fin st rule: DataLoop.induct)
  case (2 P wr meta rest fin st)
  then show ?case
    by (cases meta)
      (simp_all add: status_writes_onResultStart calls_count_recv)
qed (simp_all add: calls_tryQueueError calls_count_recv calls_EOFLoop calls_onFinished
      status_writes_onData)

text \<open>
  Claim C4, as the code has it. The receiver calls the sink's status-code setter once for
  each result-start message with HTTP metadata and a positive status code that arrives
  before the finished message, with that code and in the order of arrival; nothing
  limits the calls to one.
\<close>

theorem receiveFromRunner_status_writes:
  "status_writes (calls (receiveFromRunner P wr w msgs fin)) = start_codes msgs"
  by (simp add: receiveFromRunner_def status_writes_DataLoop init_recv_def)

text \<open>
  Scenario A of the specification: one result start with status 200, two data frames and
  the finished message.
\<close>

theorem receiveFromRunner_status_writes_witness:
  "status_writes (calls (receiveFromRunner seconds_parser full_writer ()
      [ResultStart (Http 200 [(''X'', ''1'')]), Data [97, 98] False, Data [99, 100] False,
       Finished finished_ok] EOF)) = [200]"
  using receiveFromRunner_status_writes [of seconds_parser full_writer "()"
      "[ResultStart (Http 200 [(''X'', ''1'')]), Data [97, 98] False, Data [99, 100] False,
        Finished finished_ok]" EOF]
  by simp

text \<open>
  Claim C4 as the specification states it (the setter is called at most once) fails when
  two result-start messages carry a positive status code: the setter is called twice.
\<close>

theorem receiveFromRunner_status_twice:
  "status_writes (calls (receiveFromRunner seconds_parser full_writer ()
      [ResultStart (Http 200 []), ResultStart (Http 200 []), Finished finished_ok] EOF)) =
     [200, 200] \<and>
   \<not> length (status_writes (calls (receiveFromRunner seconds_parser full_writer ()
      [ResultStart (Http 200 []), ResultStart (Http 200 []), Finished finished_ok] EOF))) \<le> 1"
  by (simp add: receiveFromRunner_def init_recv_def onResultStart_def count_recv_def
      onFinished_def tryQueueError_def finished_ok_def Let_def)

section \<open>The partial-write latch\<close>

lemma is_short_is_Write: "is_short c \<Longrightarrow> is_Write c"
  by (cases c) simp_all

lemma latch_inv_init: "latch_inv (init_recv w)"
  by (simp add: latch_inv_def init_recv_def)

lemma latch_inv_count_recv: "latch_inv st \<Longrightarrow> latch_inv (count_recv st)"
  by (auto simp: latch_inv_def count_recv_def short_write_posts_def)

lemma filter_headers: "filter is_Write (map (\<lambda>(k, v). HeaderSet k v) hs) = []"
  by (induction hs) auto

lemma short_headers: "x \<in> set (map (\<lambda>(k, v). HeaderSet k v) hs) \<Longrightarrow> \<not> is_short x"
  by auto

lemma latch_inv_onResultStart: "latch_inv st \<Longrightarrow> latch_inv (onResultStart meta st)"
proof (cases meta)
  case (Http code hs)
  assume "latch_inv st"
  then show ?thesis
    unfolding latch_inv_def onResultStart_def Http
    by (auto simp: Let_def short_write_posts_def filter_headers)
next
  case OtherMeta
  assume "latch_inv st"
  then show ?thesis by (simp add: onResultStart_def OtherMeta)
qed

lemma latch_inv_onData: "latch_inv st \<Longrightarrow> latch_inv (onData wr d st)"
proof (cases "isPartialWrite st")
  case True
  assume "latch_inv st"
  then show ?thesis using True by (simp add: onData_def)
next
  case False
  assume inv: "latch_inv st"
  obtain n werr w' where r: "wr (sink st) d = ((n, werr), w')"
    by (metis prod.exhaust)
  from inv False have ns: "\<forall>x\<in>set (calls st). \<not> is_short x" and p: "posts st = []"
    and ch: "recvDone st = []"
    by (simp_all add: latch_inv_def)
  show ?thesis
  proof (cases "n = int (length d)")
    case True
    then show ?thesis
      using False ns p ch by (simp add: onData_def r latch_inv_def Let_def)
  next
    case short: False
    let ?c = "Write d n werr"
    have "filter is_Write (calls st @ [?c]) = filter is_Write (calls st) @ [?c]"
      by simp
    moreover have "is_short ?c" using short by simp
    moreover have "\<forall>x\<in>set (filter is_Write (calls st)). \<not> is_short x"
      using ns by simp
    ultimately show ?thesis
      using False p ch short
      unfolding latch_inv_def onData_def r
      by (simp add: Let_def tryQueueError_def short_write_posts_def)
  qed
qed

lemma latch_inv_final: "latch_inv st \<Longrightarrow> latch_final st"
  by (auto simp: latch_inv_def latch_final_def short_write_posts_def split: if_splits)

lemma latch_final_count_recv: "latch_final st \<Longrightarrow> latch_final (count_recv st)"
  by (simp add: latch_final_def count_recv_def short_write_posts_def)

lemma latch_final_tryQueueError:
  "latch_final st \<Longrightarrow> site \<noteq> ShortWrite \<Longrightarrow> latch_final (tryQueueError site e st)"
  unfolding latch_final_def tryQueueError_def short_write_posts_def
  by auto

lemma latch_final_onFinished: "latch_final st \<Longrightarrow> latch_final (onFinished P m st)"
proof -
  assume f: "latch_final st"
  let ?st1 = "st\<lparr>finish_log := finish_log st @ [logCallFinish m],
                 stats := stats st @ recordFinishStats P m\<rparr>"
  from f have "latch_final ?st1"
    by (simp add: latch_final_def short_write_posts_def)
  then show ?thesis
    by (simp add: onFinished_def Let_def latch_final_tryQueueError)
qed

lemma latch_final_EOFLoop: "latch_final st \<Longrightarrow> latch_final (EOFLoop msgs fin st)"
  by (induction msgs arbitrary: st)
    (simp_all add: latch_final_tryQueueError latch_final_count_recv)

lemma latch_final_DataLoop: "latch_inv st \<Longrightarrow> latch_final (DataLoop P wr msgs fin st)"
proof (induction P wr msgs fin st rule: DataLoop.induct)
  case (1 P wr fin st)
  then show ?case
    by (simp add: latch_final_tryQueueError latch_final_count_recv latch_inv_final)
next
  case (4 P wr m rest fin st)
  then show ?case
    by (simp add: latch_final_EOFLoop latch_final_onFinished latch_final_count_recv
        latch_inv_final)
qed (simp_all add: latch_inv_count_recv latch_inv_onResultStart latch_inv_onData)

lemma latch_final_receiveFromRunner: "latch_final (receiveFromRunner P wr w msgs fin)"
proof -
  have "latch_final (DataLoop P wr msgs fin (init_recv w))"
    by (rule latch_final_DataLoop [OF latch_inv_init])
  then show ?thesis
    by (simp add: receiveFromRunner_def latch_final_def short_write_posts_def)
qed

lemma recvs_tryQueueError: "recvs (tryQueueError site e st) = recvs st"
  by (simp add: tryQueueError_def)

lemma recvs_count_recv: "recvs (count_recv st) = recvs st + 1"
  by (simp add: count_recv_def)

lemma recvs_onResultStart: "recvs (onResultStart meta st) = recvs st"
  by (simp add: onResultStart_def Let_def split: result_meta.split)

lemma recvs_onData: "recvs (onData wr d st) = recvs st"
  by (simp add: onData_def Let_def recvs_tryQueueError split: prod.split)

lemma recvs_onFinished: "recvs (onFinished P m st) = recvs st"
  by (simp add: onFinished_def Let_def recvs_tryQueueError)

lemma recvs_EOFLoop: "recvs (EOFLoop msgs fin st) = recvs st + length msgs + 1"
  by (induction msgs arbitrary: st) (simp_all add: recvs_tryQueueError recvs_count_recv)

lemma recvs_DataLoop: "recvs (DataLoop P wr msgs fin st) = recvs st + length msgs + 1"
  by (induction P wr msgs fin st rule: DataLoop.induct)
    (simp_all add: recvs_tryQueueError recvs_count_recv recvs_onResultStart recvs_onData
      recvs_onFinished recvs_EOFLoop)

lemma recvs_receiveFromRunner: "recvs (receiveFromRunner P wr w msgs fin) = length msgs + 1"
  by (simp add: receiveFromRunner_def recvs_DataLoop init_recv_def)

text \<open>
  Claim C6. If, in a run of the receiver, a write to the sink took another number of bytes
  than it was given, then that write is the last write of the run and the only short one;
  exactly one post to the terminal-signal channel comes from a short write, with the
  write's error, or \<open>io.ErrShortWrite\<close> when it had none; that error is what the channel
  delivers; and the receiver still makes one \<open>Recv\<close> for every message of the stream and one
  more for the error that ends it, so it goes on draining instead of returning.
\<close>

theorem receiveFromRunner_partial_write:
  assumes "c \<in> set (calls (receiveFromRunner P wr w msgs fin))" and "is_short c"
  shows "(\<exists>ws. filter is_Write (calls (receiveFromRunner P wr w msgs fin)) = ws @ [c] \<and>
            (\<forall>x\<in>set ws. \<not> is_short x)) \<and>
         short_write_posts (receiveFromRunner P wr w msgs fin) =
           [(ShortWrite, short_write_error c)] \<and>
         short_write_error c \<noteq> None \<and>
         receive_recvDone (receiveFromRunner P wr w msgs fin) = short_write_error c \<and>
         recvs (receiveFromRunner P wr w msgs fin) = length msgs + 1"
proof -
  let ?r = "receiveFromRunner P wr w msgs fin"
  have "latch_final ?r" by (rule latch_final_receiveFromRunner)
  with assms obtain ws c' where
    f: "filter is_Write (calls ?r) = ws @ [c']" and s: "is_short c'"
    and n: "\<forall>x\<in>set ws. \<not> is_short x"
    and p: "short_write_posts ?r = [(ShortWrite, short_write_error c')]"
    and d: "recvDone ?r = [short_write_error c']"
    unfolding latch_final_def by blast
  from assms have "c \<in> set (filter is_Write (calls ?r))"
    by (simp add: is_short_is_Write)
  with f n assms(2) have "c = c'" by auto
  moreover have "short_write_error c \<noteq> None"
    using assms(2) by (cases c) simp_all
  ultimately show ?thesis
    using f n p d by (simp add: receive_recvDone_def recvs_receiveFromRunner)
qed

theorem receiveFromRunner_partial_write_witness:
  "calls (receiveFromRunner seconds_parser short_writer ()
      [Data [1, 2, 3] False, Data [4] False, Finished finished_ok] EOF) =
     [Write [1, 2, 3] 2 None] \<and>
   short_write_posts (receiveFromRunner seconds_parser short_writer ()
      [Data [1, 2, 3] False, Data [4] False, Finished finished_ok] EOF) =
     [(ShortWrite, Some ErrShortWrite)] \<and>
   receive_recvDone (receiveFromRunner seconds_parser short_writer ()
      [Data [1, 2, 3] False, Data [4] False, Finished finished_ok] EOF) = Some ErrShortWrite \<and>
   recvs (receiveFromRunner seconds_parser short_writer ()
      [Data [1, 2, 3] False, Data [4] False, Finished finished_ok] EOF) = 4"
proof -
  let ?r = "receiveFromRunner seconds_parser short_writer ()
      [Data [1, 2, 3] False, Data [4] False, Finished finished_ok] EOF"
  have c: "calls ?r = [Write [1, 2, 3] 2 None]"
    by (simp add: receiveFromRunner_def init_recv_def onData_def count_recv_def
        onFinished_def tryQueueError_def finished_ok_def short_writer_def Let_def)
  have "Write [1, 2, 3] 2 None \<in> set (calls ?r)" "is_short (Write [1, 2, 3] 2 None)"
    by (simp_all add: c)
  from receiveFromRunner_partial_write [OF this] c show ?thesis by simp
qed

section \<open>The frames of the outbound streamer\<close>

lemma ceil_div_step:
  fixes n c :: nat
  assumes "0 < c" and "c \<le> n"
  shows "(n + c - 1) div c = Suc ((n - c + c - 1) div c)"
proof -
  from assms have a: "n + c - 1 = (n - 1) + c" by arith
  from assms have b: "n - c + c - 1 = n - 1" by arith
  have "((n - 1) + c) div c = Suc ((n - 1) div c)"
    using assms(1) by (simp only: div_add_self2)
  then show ?thesis by (simp only: a b)
qed

lemma ceil_div_small:
  fixes n c :: nat
  assumes "0 < n" and "n < c"
  shows "(n + c - 1) div c = 1"
proof -
  from assms have "c \<le> n + c - 1" "n + c - 1 < 2 * c" by arith+
  then have "c * 1 \<le> n + c - 1" "n + c - 1 < c * Suc 1" by simp_all
  then show ?thesis by (rule div_nat_eqI)
qed

lemma ceil_div_le:
  fixes n c :: nat
  assumes "0 < c"
  shows "(n + c - 1) div c \<le> n div c + 1"
proof -
  have "(n + c - 1) div c \<le> (n + c) div c"
    by (rule div_le_mono) simp
  also have "(n + c) div c = n div c + 1"
    using assms by (simp only: div_add_self2)
  finally show ?thesis .
qed

lemma chunks_Nil: "chunks c [] = []"
  by (simp add: chunks.simps)

lemma chunks_step: "0 < c \<Longrightarrow> xs \<noteq> [] \<Longrightarrow> chunks c xs = take c xs # chunks c (drop c xs)"
  by (subst chunks.simps) simp

lemma concat_chunks: "0 < c \<Longrightarrow> concat (chunks c xs) = xs"
proof (induction c xs rule: chunks.induct)
  case (1 c xs)
  then show ?case
    by (cases "xs = []") (simp_all add: chunks_Nil chunks_step)
qed

lemma length_chunks: "0 < c \<Longrightarrow> length (chunks c xs) = (length xs + c - 1) div c"
proof (induction c xs rule: chunks.induct)
  case (1 c xs)
  show ?case
  proof (cases "xs = []")
    case True
    with 1(2) show ?thesis by (simp add: chunks_Nil)
  next
    case False
    with 1 have ih: "length (chunks c (drop c xs)) = (length (drop c xs) + c - 1) div c"
      by simp
    have st: "length (chunks c xs) = Suc (length (chunks c (drop c xs)))"
      using False 1(2) by (simp add: chunks_step)
    show ?thesis
    proof (cases "c \<le> length xs")
      case True
      have "length (drop c xs) + c - 1 = length xs - c + c - 1" by simp
      with ih have "length (chunks c (drop c xs)) = (length xs - c + c - 1) div c"
        by (simp only:)
      with st show ?thesis
        by (simp only: ceil_div_step [OF 1(2) True])
    next
      case short: False
      then have d: "drop c xs = []" by simp
      from False have "0 < length xs" by simp
      with short have "(length xs + c - 1) div c = 1"
        by (intro ceil_div_small) simp_all
      with st d show ?thesis by (simp add: chunks_Nil)
    qed
  qed
qed

lemma nth_chunks:
  "0 < c \<Longrightarrow> i < length (chunks c xs) \<Longrightarrow> chunks c xs ! i = take c (drop (i * c) xs)"
proof (induction c xs arbitrary: i rule: chunks.induct)
  case (1 c xs)
  show ?case
  proof (cases "xs = []")
    case True
    with 1(3) show ?thesis by (simp add: chunks_Nil)
  next
    case False
    show ?thesis
    proof (cases i)
      case 0
      with False 1(2) show ?thesis by (simp add: chunks_step)
    next
      case (Suc j)
      with False 1(2,3) have "j < length (chunks c (drop c xs))"
        by (simp add: chunks_step)
      with 1(1) [of j] False 1(2) have "chunks c (drop c xs) ! j = take c (drop (j * c) (drop c xs))"
        by simp
      with False 1(2) Suc show ?thesis by (simp add: chunks_step add.commute)
    qed
  qed
qed

lemma length_nth_chunks:
  assumes "0 < c" and "i < length (chunks c xs)"
  shows "length (chunks c xs ! i) = (if i < length xs div c then c else length xs mod c)"
proof -
  from assms have i: "i < (length xs + c - 1) div c" by (simp only: length_chunks)
  have len: "length (chunks c xs ! i) = min c (length xs - i * c)"
    using assms by (simp add: nth_chunks min.commute)
  show ?thesis
  proof (cases "i < length xs div c")
    case True
    then have "Suc i \<le> length xs div c" by simp
    then have "Suc i * c \<le> length xs div c * c" by (rule mult_le_mono1)
    also have "\<dots> \<le> length xs" by simp
    finally have "c \<le> length xs - i * c" by simp
    with len True show ?thesis by simp
  next
    case False
    from i ceil_div_le [OF assms(1), of "length xs"] False have e: "i = length xs div c"
      by simp
    have "length xs - length xs div c * c = length xs mod c"
      by (simp add: modulo_nat_def)
    moreover have "length xs mod c \<le> c" using assms(1) by (simp add: less_imp_le)
    ultimately show ?thesis using len False e by simp
  qed
qed

lemma MaxDataChunk_pos: "0 < MaxDataChunk"
  by (simp add: MaxDataChunk_def)

lemma iter_reads:
  "reads (snd (sendIteration rd sd st)) = reads st @ [fst (rd (bodyReader st) MaxDataChunk)]"
  by (simp add: sendIteration_def Let_def split: prod.split option.split)

lemma iter_sent:
  "sent (snd (sendIteration rd sd st)) =
     sent st @ [frame_of (fst (rd (bodyReader st) MaxDataChunk))]"
  by (auto simp: sendIteration_def Let_def frame_of_def split: prod.split option.split)

lemma iter_bodyReader:
  "bodyReader (snd (sendIteration rd sd st)) = snd (rd (bodyReader st) MaxDataChunk)"
  by (simp add: sendIteration_def Let_def split: prod.split option.split)

lemma iter_returns:
  "fst (sendIteration rd sd st) =
     (sd (length (sent st)) \<noteq> None \<or> frame_eof (frame_of (fst (rd (bodyReader st) MaxDataChunk))))"
  by (auto simp: sendIteration_def Let_def frame_of_def split: prod.split option.split)

lemma iter_logs_quiet:
  "sd (length (sent st)) = None \<Longrightarrow>
   snd (fst (rd (bodyReader st) MaxDataChunk)) \<in> {None, Some EOF} \<Longrightarrow>
   send_logs (snd (sendIteration rd sd st)) = send_logs st"
  by (auto simp: sendIteration_def Let_def split: prod.split option.split)

lemma sendLoop_frames:
  "sendLoop fuel rd sd st = Some st' \<Longrightarrow> sent st = map frame_of (reads st) \<Longrightarrow>
   sent st' = map frame_of (reads st') \<and> reads st' \<noteq> []"
proof (induction fuel arbitrary: st)
  case 0
  then show ?case by simp
next
  case (Suc fuel)
  obtain b st2 where it: "sendIteration rd sd st = (b, st2)"
    by (metis prod.exhaust)
  have inv2: "sent st2 = map frame_of (reads st2)" "reads st2 \<noteq> []"
    using iter_sent [of rd sd st] iter_reads [of rd sd st] Suc.prems(2)
    by (simp_all add: it)
  show ?case
  proof (cases b)
    case True
    with Suc.prems(1) it have "st' = st2" by simp
    with inv2 show ?thesis by simp
  next
    case False
    with Suc.prems(1) it have "sendLoop fuel rd sd st2 = Some st'" by simp
    from Suc.IH [OF this inv2(1)] show ?thesis .
  qed
qed

lemma sendLoop_read_error:
  assumes "rd (bodyReader st) MaxDataChunk = ((data, Some e), r')"
  shows "\<exists>st'. sendLoop (Suc fuel) rd sd st = Some st' \<and>
           reads st' = reads st @ [(data, Some e)] \<and>
           sent st' = sent st @ [\<lparr>frame_data = data, frame_eof = True\<rparr>]"
proof -
  obtain b st2 where it: "sendIteration rd sd st = (b, st2)"
    by (metis prod.exhaust)
  from iter_returns [of rd sd st] assms it have "b" by (simp add: frame_of_def)
  with it have "sendLoop (Suc fuel) rd sd st = Some st2" by simp
  moreover from iter_reads [of rd sd st] assms it
  have "reads st2 = reads st @ [(data, Some e)]" by simp
  moreover from iter_sent [of rd sd st] assms it
  have "sent st2 = sent st @ [\<lparr>frame_data = data, frame_eof = True\<rparr>]"
    by (simp add: frame_of_def)
  ultimately show ?thesis by simp
qed

text \<open>
  The number of passes allowed only bounds the run: a run that returns is the same with
  more passes, and a reader that has finitely many results and then reports \<open>io.EOF\<close>
  always lets the function return.
\<close>

lemma sendLoop_more_fuel:
  "sendLoop fuel rd sd st = Some st' \<Longrightarrow> sendLoop (fuel + k) rd sd st = Some st'"
proof (induction fuel arbitrary: st)
  case 0
  then show ?case by simp
next
  case (Suc fuel)
  obtain b st2 where it: "sendIteration rd sd st = (b, st2)"
    by (metis prod.exhaust)
  show ?case
  proof (cases b)
    case True
    with Suc.prems it show ?thesis by simp
  next
    case False
    with Suc.prems it have "sendLoop fuel rd sd st2 = Some st'" by simp
    then have "sendLoop (fuel + k) rd sd st2 = Some st'" by (rule Suc.IH)
    with False it show ?thesis by simp
  qed
qed

lemma sendLoop_scripted_returns:
  "length (bodyReader st) < fuel \<Longrightarrow> \<exists>st'. sendLoop fuel scripted_reader sd st = Some st'"
proof (induction fuel arbitrary: st)
  case 0
  then show ?case by simp
next
  case (Suc fuel)
  obtain b st2 where it: "sendIteration scripted_reader sd st = (b, st2)"
    by (metis prod.exhaust)
  show ?case
  proof (cases b)
    case True
    with it show ?thesis by simp
  next
    case False
    have "bodyReader st \<noteq> []"
    proof
      assume "bodyReader st = []"
      then have "scripted_reader (bodyReader st) MaxDataChunk = (([], Some EOF), [])"
        by (simp add: scripted_reader_def)
      with iter_returns [of scripted_reader sd st] it have "b" by (simp add: frame_of_def)
      with False show False by simp
    qed
    then obtain r rs where s: "bodyReader st = r # rs" by (cases "bodyReader st") simp_all
    with iter_bodyReader [of scripted_reader sd st] it have "bodyReader st2 = rs"
      by (simp add: scripted_reader_def)
    with Suc.prems s have "length (bodyReader st2) < fuel" by simp
    then obtain st' where "sendLoop fuel scripted_reader sd st2 = Some st'"
      using Suc.IH by blast
    with False it show ?thesis by simp
  qed
qed

text \<open>
  Claim C8. In every run of \<open>sendToRunner\<close> that returns, the frames handed to \<open>Send\<close> are,
  read for read, the frames of the reads made: the bytes read, and the end-of-stream flag
  set exactly when the read returned no byte or an error. And a read that returns an error,
  \<open>io.EOF\<close> or not, does not end the pass early: the pass returns with the frame of that
  read, flagged end-of-stream, handed to \<open>Send\<close>.
\<close>

theorem sendToRunner_frames:
  "(\<forall>st. sendToRunner fuel rd sd r = Some st \<longrightarrow>
      sent st = map frame_of (reads st) \<and> reads st \<noteq> []) \<and>
   (\<forall>st0 data e r'. rd (bodyReader st0) MaxDataChunk = ((data, Some e), r') \<longrightarrow>
      (\<exists>st'. sendLoop (Suc fuel) rd sd st0 = Some st' \<and>
         reads st' = reads st0 @ [(data, Some e)] \<and>
         sent st' = sent st0 @ [\<lparr>frame_data = data, frame_eof = True\<rparr>]))"
proof (intro conjI allI impI)
  fix st
  assume "sendToRunner fuel rd sd r = Some st"
  then have "sendLoop fuel rd sd (init_send r) = Some st"
    by (simp add: sendToRunner_def)
  moreover have "sent (init_send r) = map frame_of (reads (init_send r))"
    by (simp add: init_send_def)
  ultimately have "sent st = map frame_of (reads st) \<and> reads st \<noteq> []"
    by (rule sendLoop_frames)
  then show "sent st = map frame_of (reads st)" and "reads st \<noteq> []" by simp_all
next
  fix st0 :: "'a send_state" and data e r'
  assume "rd (bodyReader st0) MaxDataChunk = ((data, Some e), r')"
  then show "\<exists>st'. sendLoop (Suc fuel) rd sd st0 = Some st' \<and>
         reads st' = reads st0 @ [(data, Some e)] \<and>
         sent st' = sent st0 @ [\<lparr>frame_data = data, frame_eof = True\<rparr>]"
    by (rule sendLoop_read_error)
qed

theorem sendToRunner_frames_witness:
  "\<exists>st. sendToRunner 5 scripted_reader send_ok reset_script = Some st \<and>
     reads st = reset_script \<and>
     sent st = [\<lparr>frame_data = [1, 2], frame_eof = False\<rparr>, \<lparr>frame_data = [3], frame_eof = True\<rparr>] \<and>
     send_logs st = [ReadFailed (OtherError ''connection reset'')]"
proof -
  obtain st where st: "sendToRunner 5 scripted_reader send_ok reset_script = Some st"
    and r: "reads st = reset_script"
    and l: "send_logs st = [ReadFailed (OtherError ''connection reset'')]"
    by (simp add: sendToRunner_def init_send_def sendIteration_def scripted_reader_def
        send_ok_def reset_script_def eval_nat_numeral Let_def)
  from sendToRunner_frames [of 5 scripted_reader send_ok reset_script, THEN conjunct1,
      rule_format, OF st] r
  have "sent st = map frame_of reset_script" by simp
  then have "sent st =
      [\<lparr>frame_data = [1, 2], frame_eof = False\<rparr>, \<lparr>frame_data = [3], frame_eof = True\<rparr>]"
    by (simp add: frame_of_def reset_script_def)
  with st r l show ?thesis by blast
qed

lemma sendLoop_bytes:
  "length (chunks MaxDataChunk (bodyReader st)) < fuel \<Longrightarrow>
   \<exists>st'. sendLoop fuel bytesReader send_ok st = Some st' \<and>
     sent st' = sent st @
       map (\<lambda>c. \<lparr>frame_data = c, frame_eof = False\<rparr>) (chunks MaxDataChunk (bodyReader st)) @
       [\<lparr>frame_data = [], frame_eof = True\<rparr>] \<and>
     send_logs st' = send_logs st"
proof (induction fuel arbitrary: st)
  case 0
  then show ?case by simp
next
  case (Suc fuel)
  obtain b st2 where it: "sendIteration bytesReader send_ok st = (b, st2)"
    by (metis prod.exhaust)
  have ok: "send_ok (length (sent st)) = None" by (simp add: send_ok_def)
  show ?case
  proof (cases "bodyReader st = []")
    case True
    then have rd: "bytesReader (bodyReader st) MaxDataChunk = (([], Some EOF), [])"
      by (simp add: bytesReader_def)
    from iter_returns [of bytesReader send_ok st] rd it have "b" by (simp add: frame_of_def)
    with it have "sendLoop (Suc fuel) bytesReader send_ok st = Some st2" by simp
    moreover from iter_sent [of bytesReader send_ok st] rd it
    have "sent st2 = sent st @ [\<lparr>frame_data = [], frame_eof = True\<rparr>]"
      by (simp add: frame_of_def)
    moreover from iter_logs_quiet [of send_ok st bytesReader] ok rd it
    have "send_logs st2 = send_logs st" by simp
    ultimately show ?thesis using True by (simp add: chunks_Nil)
  next
    case False
    let ?d = "take MaxDataChunk (bodyReader st)"
    have rd: "bytesReader (bodyReader st) MaxDataChunk =
        ((?d, None), drop MaxDataChunk (bodyReader st))"
      using False by (simp add: bytesReader_def)
    have ne: "?d \<noteq> []" using False MaxDataChunk_pos by simp
    have ch: "chunks MaxDataChunk (bodyReader st) =
        ?d # chunks MaxDataChunk (drop MaxDataChunk (bodyReader st))"
      using False by (simp add: chunks_step MaxDataChunk_pos)
    from iter_returns [of bytesReader send_ok st] rd it ok ne have "\<not> b"
      by (simp add: frame_of_def)
    with it have step: "sendLoop (Suc fuel) bytesReader send_ok st =
        sendLoop fuel bytesReader send_ok st2"
      by simp
    from iter_sent [of bytesReader send_ok st] rd it ne
    have s2: "sent st2 = sent st @ [\<lparr>frame_data = ?d, frame_eof = False\<rparr>]"
      by (simp add: frame_of_def)
    from iter_logs_quiet [of send_ok st bytesReader] ok rd it
    have l2: "send_logs st2 = send_logs st" by simp
    from iter_bodyReader [of bytesReader send_ok st] rd it
    have b2: "bodyReader st2 = drop MaxDataChunk (bodyReader st)" by simp
    from Suc.prems ch b2 have "length (chunks MaxDataChunk (bodyReader st2)) < fuel"
      by simp
    from Suc.IH [OF this] obtain st' where
      "sendLoop fuel bytesReader send_ok st2 = Some st'"
      "sent st' = sent st2 @
        map (\<lambda>c. \<lparr>frame_data = c, frame_eof = False\<rparr>) (chunks MaxDataChunk (bodyReader st2)) @
        [\<lparr>frame_data = [], frame_eof = True\<rparr>]"
      "send_logs st' = send_logs st2"
      by blast
    with step ch s2 l2 b2 show ?thesis by simp
  qed
qed

text \<open>
  Claim C5, as the code has it. For a body of \<open>N\<close> bytes held in memory and sends that all
  succeed, \<open>sendToRunner\<close> returns, given \<open>N div C + 2\<close> passes or more (\<open>C\<close> is
  \<open>MaxDataChunk\<close>), and the frames it hands to \<open>Send\<close> are: the pieces of the body, in order
  and none flagged end-of-stream, which are \<open>(N + C - 1) div C\<close> in number, the first
  \<open>N div C\<close> of exactly \<open>C\<close> bytes and a last one of \<open>N mod C\<close> bytes when \<open>C\<close> does not divide
  \<open>N\<close>; and then, always, one frame of no byte flagged end-of-stream.
\<close>

theorem sendToRunner_bytes:
  assumes "length body div MaxDataChunk + 1 < fuel"
  shows "\<exists>st. sendToRunner fuel bytesReader send_ok body = Some st \<and>
     sent st =
       map (\<lambda>c. \<lparr>frame_data = c, frame_eof = False\<rparr>) (chunks MaxDataChunk body) @
       [\<lparr>frame_data = [], frame_eof = True\<rparr>] \<and>
     concat (chunks MaxDataChunk body) = body \<and>
     length (chunks MaxDataChunk body) = (length body + MaxDataChunk - 1) div MaxDataChunk \<and>
     (\<forall>i < length (chunks MaxDataChunk body).
        length (chunks MaxDataChunk body ! i) =
          (if i < length body div MaxDataChunk then MaxDataChunk
           else length body mod MaxDataChunk))"
proof -
  have "length (chunks MaxDataChunk body) \<le> length body div MaxDataChunk + 1"
    by (simp only: length_chunks [OF MaxDataChunk_pos] ceil_div_le [OF MaxDataChunk_pos])
  with assms have "length (chunks MaxDataChunk (bodyReader (init_send body))) < fuel"
    by (simp add: init_send_def)
  from sendLoop_bytes [OF this] obtain st where
    "sendLoop fuel bytesReader send_ok (init_send body) = Some st"
    "sent st = sent (init_send body) @
       map (\<lambda>c. \<lparr>frame_data = c, frame_eof = False\<rparr>)
         (chunks MaxDataChunk (bodyReader (init_send body))) @
       [\<lparr>frame_data = [], frame_eof = True\<rparr>]"
    by blast
  then have "sendToRunner fuel bytesReader send_ok body = Some st \<and>
     sent st =
       map (\<lambda>c. \<lparr>frame_data = c, frame_eof = False\<rparr>) (chunks MaxDataChunk body) @
       [\<lparr>frame_data = [], frame_eof = True\<rparr>]"
    by (simp add: sendToRunner_def init_send_def)
  then show ?thesis
    using concat_chunks [OF MaxDataChunk_pos, of body] length_chunks [OF MaxDataChunk_pos, of body]
      length_nth_chunks [OF MaxDataChunk_pos, of _ body]
    by blast
qed

theorem sendToRunner_bytes_witness:
  "\<exists>st. sendToRunner 4 bytesReader send_ok (replicate 20481 0) = Some st \<and>
     sent st =
       [\<lparr>frame_data = replicate 10240 0, frame_eof = False\<rparr>,
        \<lparr>frame_data = replicate 10240 0, frame_eof = False\<rparr>,
        \<lparr>frame_data = [0], frame_eof = False\<rparr>,
        \<lparr>frame_data = [], frame_eof = True\<rparr>]"
proof -
  have c: "chunks MaxDataChunk (replicate 20481 (0::byte)) =
      [replicate 10240 0, replicate 10240 0, [0]]"
    by (simp add: chunks_step chunks_Nil MaxDataChunk_def)
  have "length (replicate 20481 (0::byte)) div MaxDataChunk + 1 < 4"
    by (simp add: MaxDataChunk_def)
  from sendToRunner_bytes [OF this] c show ?thesis by auto
qed

text \<open>
  Claim C5 as the specification states it fails on a body of one byte: the one frame that
  is not final has one byte, not \<open>MaxDataChunk\<close>, and the final frame carries no byte, not
  the remainder.
\<close>

theorem sendToRunner_one_byte:
  "sendToRunner 2 bytesReader send_ok [97] = Some one_byte_run \<and>
   \<not> (\<forall>f\<in>set (sent one_byte_run). \<not> frame_eof f \<longrightarrow> length (frame_data f) = MaxDataChunk) \<and>
   \<not> (frame_data (last (sent one_byte_run)) = [97])"
  by (simp add: sendToRunner_def init_send_def sendIteration_def bytesReader_def send_ok_def
      one_byte_run_def MaxDataChunk_def numeral_2_eq_2 Let_def)

end
